theory Spec2Isabelle
  imports Complex_Main "HOL-Library.Sublist"
begin

section \<open>Python values shared by the models\<close>

text \<open>
  Exceptions are values. Only the classes the modelled code can meet are listed;
  \<open>OSError\<close> stands for any other operating-system error of \<open>open\<close>/\<open>read\<close>.
  Clock readings (\<open>time.time()\<close>, \<open>time.monotonic()\<close>) are inputs of the models and
  are taken as exact reals: the binary rounding of Python's doubles is not modelled.
\<close>

datatype py_exn =
    KeyError string
  | FileNotFoundError
  | PermissionError
  | OSError
  | ValueError
  | ZeroDivisionError
  | NotImplementedError

section \<open>TTL cache: \<open>sources/base.py\<close>, class \<open>CachedDataSource\<close>\<close>

text \<open>
  The object holds two dicts, \<open>_cache\<close> and \<open>_timestamps\<close>. The subclass's
  \<open>_fetch\<close> is a parameter: it reads and may change the outside world \<open>'w\<close>, and it
  either returns a value or raises.
\<close>

record 'v cached_data_source =
  cache :: "string \<rightharpoonup> 'v"
  timestamps :: "string \<rightharpoonup> real"

type_synonym ('v, 'w) fetch_fn = "string \<Rightarrow> 'w \<Rightarrow> (py_exn + 'v) \<times> 'w"

text \<open>
  What \<open>get\<close> can raise: the \<open>KeyError\<close> of \<open>self._timestamps[key]\<close> on the hit
  path, or whatever \<open>_fetch\<close> raised. The two are kept apart so that a statement can
  speak about the first alone.
\<close>

datatype get_exn = TimestampKeyError string | FetchRaised py_exn

definition init_source :: "'v cached_data_source" where
  "init_source = \<lparr>cache = Map.empty, timestamps = Map.empty\<rparr>"

text \<open>Lines 32-39 of \<open>get\<close>: fetch, then store value and timestamp, then return.\<close>

definition fetch_fresh ::
  "('v, 'w) fetch_fn \<Rightarrow> string \<Rightarrow> real \<Rightarrow> 'v cached_data_source \<times> 'w
     \<Rightarrow> (get_exn + 'v) \<times> 'v cached_data_source \<times> 'w" where
  "fetch_fresh fetch key now sw =
     (case fetch key (snd sw) of
        (Inl e, w') \<Rightarrow> (Inl (FetchRaised e), (fst sw, w'))
      | (Inr value, w') \<Rightarrow>
          (Inr value,
           ((fst sw)\<lparr>cache := (cache (fst sw))(key \<mapsto> value),
                     timestamps := (timestamps (fst sw))(key \<mapsto> now)\<rparr>, w')))"

text \<open>\<open>get(key, ttl_s)\<close>; \<open>now\<close> is the reading of \<open>time.time()\<close> on line 25.\<close>

definition get ::
  "('v, 'w) fetch_fn \<Rightarrow> string \<Rightarrow> real \<Rightarrow> real \<Rightarrow> 'v cached_data_source \<times> 'w
     \<Rightarrow> (get_exn + 'v) \<times> 'v cached_data_source \<times> 'w" where
  "get fetch key ttl_s now sw =
     (case cache (fst sw) key of
        None \<Rightarrow> fetch_fresh fetch key now sw
      | Some value \<Rightarrow>
          (case timestamps (fst sw) key of
             None \<Rightarrow> (Inl (TimestampKeyError key), sw)
           | Some ts \<Rightarrow>
               if now - ts < ttl_s then (Inr value, sw)
               else fetch_fresh fetch key now sw))"

text \<open>\<open>invalidate(key=None)\<close>: clear both dicts, or pop the key from both.\<close>

definition invalidate :: "string option \<Rightarrow> 'v cached_data_source \<Rightarrow> 'v cached_data_source" where
  "invalidate key s =
     (case key of
        None \<Rightarrow> s\<lparr>cache := Map.empty, timestamps := Map.empty\<rparr>
      | Some k \<Rightarrow> s\<lparr>cache := (cache s)(k := None), timestamps := (timestamps s)(k := None)\<rparr>)"

text \<open>
  A fetch function instrumented with a call counter, as the \<open>TestSource\<close> of
  \<open>test_smoke.py\<close> does with \<open>fetch_count\<close>: every invocation adds one, whether the
  fetch returns or raises.
\<close>

definition counting :: "('v, 'w) fetch_fn \<Rightarrow> ('v, nat \<times> 'w) fetch_fn" where
  "counting fetch key nw =
     (case fetch key (snd nw) of (r, w') \<Rightarrow> (r, (Suc (fst nw), w')))"

text \<open>A caller's history: calls of \<open>get\<close> (with the clock reading) and of \<open>invalidate\<close>.\<close>

datatype cache_op = Get string real real | Invalidate "string option"

fun run_ops ::
  "('v, 'w) fetch_fn \<Rightarrow> cache_op list \<Rightarrow> 'v cached_data_source \<times> 'w
     \<Rightarrow> (get_exn + 'v) list \<times> 'v cached_data_source \<times> 'w" where
  "run_ops fetch [] sw = ([], sw)"
| "run_ops fetch (Get key ttl_s now # ops) sw =
     (case get fetch key ttl_s now sw of
        (r, sw') \<Rightarrow> (case run_ops fetch ops sw' of (rs, sw'') \<Rightarrow> (r # rs, sw'')))"
| "run_ops fetch (Invalidate key # ops) sw =
     run_ops fetch ops (invalidate key (fst sw), snd sw)"

definition same_keys :: "'v cached_data_source \<Rightarrow> bool" where
  "same_keys s \<longleftrightarrow> dom (cache s) = dom (timestamps s)"

section \<open>Alarm cooldown: \<open>alarms.py\<close>, class \<open>AlarmState\<close>\<close>

record alarm_state =
  cooldown :: real
  last_alert :: "string \<rightharpoonup> real"

text \<open>
  \<open>should_alert(alarm_id)\<close>; \<open>now\<close> is the reading of \<open>time.time()\<close> on line 29,
  \<open>last\<close> is \<open>self.last_alert.get(alarm_id, 0)\<close>. Returns the boolean and the state.
\<close>

definition should_alert :: "string \<Rightarrow> real \<Rightarrow> alarm_state \<Rightarrow> bool \<times> alarm_state" where
  "should_alert alarm_id now st =
     (let last = (case last_alert st alarm_id of None \<Rightarrow> 0 | Some t \<Rightarrow> t) in
      if now - last \<ge> cooldown st
      then (True, st\<lparr>last_alert := (last_alert st)(alarm_id \<mapsto> now)\<rparr>)
      else (False, st))"

text \<open>\<open>clear(alarm_id)\<close>: \<open>self.last_alert.pop(alarm_id, None)\<close>.\<close>

definition clear :: "string \<Rightarrow> alarm_state \<Rightarrow> alarm_state" where
  "clear alarm_id st = st\<lparr>last_alert := (last_alert st)(alarm_id := None)\<rparr>"

text \<open>A history of calls on one \<open>AlarmState\<close> object, each poll with its clock reading.\<close>

datatype alarm_call = ShouldAlert string real | Clear string

fun call_id :: "alarm_call \<Rightarrow> string" where
  "call_id (ShouldAlert a now) = a"
| "call_id (Clear a) = a"

fun alarm_run :: "alarm_call list \<Rightarrow> alarm_state \<Rightarrow> alarm_state" where
  "alarm_run [] st = st"
| "alarm_run (ShouldAlert a now # cs) st = alarm_run cs (snd (should_alert a now st))"
| "alarm_run (Clear a # cs) st = alarm_run cs (clear a st)"

text \<open>
  While the condition persists: the calls between two alerts of \<open>a\<close> never clear
  \<open>a\<close>, and every poll of \<open>a\<close> among them comes before the cooldown has elapsed
  since \<open>t0\<close>. Calls for other ids are free.
\<close>

fun early_poll :: "string \<Rightarrow> real \<Rightarrow> real \<Rightarrow> alarm_call \<Rightarrow> bool" where
  "early_poll a t0 c (ShouldAlert b now) = (b \<noteq> a \<or> now - t0 < c)"
| "early_poll a t0 c (Clear b) = (b \<noteq> a)"

section \<open>Navigation: \<open>main.py\<close>, \<open>on_button\<close> and the idle check of the main loop\<close>

record nav_state =
  current_page :: int
  last_nav_at :: real

definition NAV_TIMEOUT :: real where
  "NAV_TIMEOUT = 10"

text \<open>\<open>pages.BROWSE_PAGES\<close> of \<open>pages/__init__.py\<close>: the five render functions.\<close>

datatype page = Network | System | Storage | Raid | Temps

definition BROWSE_PAGES :: "page list" where
  "BROWSE_PAGES = [Network, System, Storage, Raid, Temps]"

text \<open>
  \<open>on_button(channel)\<close>; \<open>now\<close> is the reading of \<open>time.monotonic()\<close>. The page list
  is a parameter so that the modulus is visible; \<open>%\<close> by an empty list's length
  raises, after \<open>last_nav_at\<close> was already assigned. Python's \<open>%\<close> with a positive
  modulus is HOL's \<open>mod\<close> on \<open>int\<close>.
\<close>

definition on_button :: "'p list \<Rightarrow> real \<Rightarrow> nav_state \<Rightarrow> (py_exn + unit) \<times> nav_state" where
  "on_button pages now st =
     (let st1 = st\<lparr>last_nav_at := now\<rparr> in
      if current_page st1 = - 1 then (Inr (), st1\<lparr>current_page := 0\<rparr>)
      else if length pages = 0 then (Inl ZeroDivisionError, st1)
      else (Inr (), st1\<lparr>current_page := (current_page st1 + 1) mod int (length pages)\<rparr>))"

text \<open>Lines 92-94 of \<open>main\<close>, run on every tick with that tick's \<open>now_mono\<close>.\<close>

definition idle_timeout :: "real \<Rightarrow> nav_state \<Rightarrow> nav_state" where
  "idle_timeout now_mono st =
     (if current_page st \<noteq> - 1 \<and> now_mono - last_nav_at st \<ge> NAV_TIMEOUT
      then st\<lparr>current_page := - 1\<rparr> else st)"

datatype nav_event = ButtonPressed real | Tick real

fun nav_run :: "'p list \<Rightarrow> nav_event list \<Rightarrow> nav_state \<Rightarrow> nav_state" where
  "nav_run pages [] st = st"
| "nav_run pages (ButtonPressed now # es) st = nav_run pages es (snd (on_button pages now st))"
| "nav_run pages (Tick now # es) st = nav_run pages es (idle_timeout now st)"

definition page_in_range :: "nat \<Rightarrow> nav_state \<Rightarrow> bool" where
  "page_in_range n st \<longleftrightarrow> current_page st = - 1 \<or> (0 \<le> current_page st \<and> current_page st < int n)"

section \<open>Buzzer patterns: \<open>buzzer.py\<close>, class \<open>Buzzer\<close>\<close>

text \<open>
  The hardware is a trace of calls. \<open>PwmStart pin frequency duty\<close> is
  \<open>GPIO.PWM(pin, frequency)\<close> followed by \<open>start(duty)\<close>; \<open>SleepMs n\<close> is
  \<open>time.sleep(n / 1000.0)\<close>.
\<close>

datatype gpio_call = PwmStart nat nat nat | SleepMs nat | PwmStop

record buzzer =
  pin :: nat
  frequency :: nat

definition beep :: "buzzer \<Rightarrow> nat \<Rightarrow> nat \<Rightarrow> gpio_call list" where
  "beep b duration_ms duty_cycle =
     [PwmStart (pin b) (frequency b) duty_cycle, SleepMs duration_ms, PwmStop]"

definition patterns :: "string \<rightharpoonup> (nat \<times> nat) list" where
  "patterns = map_of
     [(''short'', [(100, 100)]),
      (''long'', [(500, 100)]),
      (''double'', [(100, 100), (100, 100)]),
      (''triple'', [(100, 100), (100, 100), (100, 100)])]"

text \<open>
  \<open>pattern(name)\<close>: the fallback assignment of line 61, then the subscript
  \<open>patterns[pattern]\<close>, which raises \<open>KeyError\<close> on a missing key. \<open>beep\<close> is called
  with its default duty cycle of 50.
\<close>

definition pattern :: "buzzer \<Rightarrow> string \<Rightarrow> py_exn + gpio_call list" where
  "pattern b name =
     (let name' = (if patterns name = None then ''short'' else name) in
      case patterns name' of
        None \<Rightarrow> Inl (KeyError name')
      | Some steps \<Rightarrow>
          Inr (concat (map (\<lambda>(beep_ms, pause_ms). beep b beep_ms 50 @ [SleepMs pause_ms]) steps)))"

section \<open>Python strings and number formatting\<close>

text \<open>
  Strings are lists of 8-bit characters: the texts the program handles (sysfs values,
  \<open>/proc/mdstat\<close>, pattern names) are ASCII. \<open>lower\<close> is \<open>str.lower()\<close> and
  \<open>is_space\<close> is the whitespace of \<open>str.strip()\<close> and of \<open>\s\<close>, both on ASCII.
  The substring test \<open>x in y\<close> is \<open>sublist x y\<close>.
\<close>

definition lower_char :: "char \<Rightarrow> char" where
  "lower_char c =
     (case map_of (zip ''ABCDEFGHIJKLMNOPQRSTUVWXYZ'' ''abcdefghijklmnopqrstuvwxyz'') c of
        Some d \<Rightarrow> d | None \<Rightarrow> c)"

definition lower :: "string \<Rightarrow> string" where
  "lower s = map lower_char s"

definition is_space :: "char \<Rightarrow> bool" where
  "is_space c \<longleftrightarrow>
     c \<in> set [CHR '' '', CHR 0x09, CHR 0x0A, CHR 0x0B, CHR 0x0C, CHR 0x0D,
               CHR 0x1C, CHR 0x1D, CHR 0x1E, CHR 0x1F]"

definition strip :: "string \<Rightarrow> string" where
  "strip s = rev (dropWhile is_space (rev (dropWhile is_space s)))"

definition is_digit :: "char \<Rightarrow> bool" where
  "is_digit c \<longleftrightarrow> c \<in> set ''0123456789''"

definition digit_val :: "char \<Rightarrow> nat" where
  "digit_val c = (case map_of (zip ''0123456789'' [0, 1, 2, 3, 4, 5, 6, 7, 8, 9]) c of
                    Some d \<Rightarrow> d | None \<Rightarrow> 0)"

definition digit_char :: "nat \<Rightarrow> char" where
  "digit_char d = ''0123456789'' ! (d mod 10)"

text \<open>\<open>str(n)\<close> for an integer.\<close>

fun str_nat :: "nat \<Rightarrow> string" where
  "str_nat n = (if n < 10 then [digit_char n] else str_nat (n div 10) @ [digit_char (n mod 10)])"

definition str_int :: "int \<Rightarrow> string" where
  "str_int i = (if i < 0 then CHR ''-'' # str_nat (nat (- i)) else str_nat (nat i))"

text \<open>
  Python floats are modelled as exact reals. \<open>fmt_fixed p x\<close> is the format
  \<open>f"{x:.pf}"\<close>: the magnitude rounded to \<open>p\<close> decimals, ties to even, with a minus sign
  for a negative value. A double is only near the decimal it was read from, so the model
  agrees with Python wherever the scaled value is not within rounding distance of a tie.
\<close>

definition round_half_even :: "real \<Rightarrow> int" where
  "round_half_even x =
     (let f = \<lfloor>x\<rfloor>; d = x - of_int f in
      if d < 1 / 2 then f else if d > 1 / 2 then f + 1 else if even f then f else f + 1)"

definition fmt_fixed :: "nat \<Rightarrow> real \<Rightarrow> string" where
  "fmt_fixed p x =
     (let n = nat (round_half_even (\<bar>x\<bar> * 10 ^ p));
          ip = str_nat (n div 10 ^ p);
          fp = str_nat (n mod 10 ^ p);
          digits = (if p = 0 then ip
                    else ip @ CHR ''.'' # replicate (p - length fp) CHR ''0'' @ fp)
      in if x < 0 then CHR ''-'' # digits else digits)"

text \<open>\<open>int(x)\<close> of a float truncates towards zero.\<close>

definition py_int :: "real \<Rightarrow> int" where
  "py_int x = (if x \<ge> 0 then \<lfloor>x\<rfloor> else \<lceil>x\<rceil>)"

section \<open>Formatters: \<open>formatters.py\<close>\<close>

text \<open>
  \<open>fmt_rate(k_per_s)\<close>: \<open>None\<close> makes \<open>float()\<close> raise \<open>TypeError\<close>, which is caught
  and gives "N/A"; a float converts to itself.
\<close>

definition fmt_rate :: "real option \<Rightarrow> string" where
  "fmt_rate k_per_s =
     (case k_per_s of
        None \<Rightarrow> ''N/A''
      | Some k \<Rightarrow>
          if k < 1024 then fmt_fixed 0 k @ ''K/s''
          else if k < 1024 ^ 2 then fmt_fixed 1 (k / 1024) @ ''M/s''
          else fmt_fixed 1 (k / 1024 ^ 2) @ ''G/s'')"

text \<open>\<open>fmt_time(seconds)\<close>: three \<open>divmod\<close>s, then the day/hour/minute cascade.\<close>

definition fmt_time :: "real option \<Rightarrow> string" where
  "fmt_time seconds =
     (case seconds of
        None \<Rightarrow> ''N/A''
      | Some sec \<Rightarrow>
          (let s0 = py_int sec;
               m0 = s0 div 60; s = s0 mod 60;
               h0 = m0 div 60; m = m0 mod 60;
               d = h0 div 24; h = h0 mod 24
           in if d > 0 then str_int d @ ''d '' @ str_int h @ ''h''
              else if h > 0 then str_int h @ ''h '' @ str_int m @ ''m''
              else str_int m @ ''m''))"

section \<open>Array status: the dict returned by \<open>MdadmSource._get_status\<close>\<close>

text \<open>
  The dict has at most the five keys below; a key that is absent is \<open>None\<close>. The
  empty dict \<open>{}\<close> is \<open>no_status\<close>.
\<close>

record raid_status =
  array_state :: "string option"
  sync_action :: "string option"
  progress :: "real option"
  finish_min :: "real option"
  speed_kps :: "real option"

definition no_status :: raid_status where
  "no_status = \<lparr>array_state = None, sync_action = None, progress = None,
                 finish_min = None, speed_kps = None\<rparr>"

text \<open>\<open>d.get(key, "")\<close> for the two string keys.\<close>

definition get_str :: "string option \<Rightarrow> string" where
  "get_str v = (case v of None \<Rightarrow> [] | Some s \<Rightarrow> s)"

section \<open>Home page: \<open>pages/home.py\<close>\<close>

text \<open>
  What \<open>render\<close> draws: the sync view with its header and its three label/value
  lines, or the degraded or the clean view. The bodies of the last two read other sources
  and are not modelled.
\<close>

datatype home_view =
    SyncView string "(string \<times> string) list"
  | DegradedView
  | CleanView

definition header_map :: "(string \<times> string) list" where
  "header_map =
     [(''resync'', ''Resync''), (''recovery'', ''Recovery''), (''recover'', ''Recovery''),
      (''check'', ''Check''), (''repair'', ''Repair'')]"

text \<open>\<open>_render_resync(draw, ctx, raid_status, sync_action)\<close>.\<close>

definition render_resync :: "raid_status \<Rightarrow> string \<Rightarrow> home_view" where
  "render_resync rs sa =
     (let header = (case map_of header_map sa of Some h \<Rightarrow> h | None \<Rightarrow> ''Syncing'');
          prog_val = (case progress rs of None \<Rightarrow> ''N/A'' | Some p \<Rightarrow> fmt_fixed 1 p @ ''%'');
          rate_val = (case speed_kps rs of None \<Rightarrow> ''N/A'' | Some k \<Rightarrow> fmt_rate (Some k));
          eta_val = (case finish_min rs of
                       Some f \<Rightarrow> fmt_time (Some (f * 60)) | None \<Rightarrow> ''N/A'')
      in SyncView header [(''Prog:'', prog_val), (''Rate:'', rate_val), (''ETA:'', eta_val)])"

text \<open>\<open>render(draw, ctx)\<close>, on the status dict that \<open>ctx.mdadm.get("status")\<close> returned.\<close>

definition render :: "raid_status \<Rightarrow> home_view" where
  "render rs =
     (let sa = get_str (sync_action rs);
          st = get_str (array_state rs);
          rest = (if sublist ''degraded'' (lower st) then DegradedView else CleanView)
      in if sa \<noteq> [] \<and> sa \<notin> set [''idle'', ''frozen'']
         then (if sa \<in> set [''resync'', ''recovery'', ''recover'', ''check'', ''repair'']
               then render_resync rs sa else rest)
         else rest)"

section \<open>Alarm engine: the RAID block of \<open>alarms.check\<close> (lines 58-76)\<close>

text \<open>
  The result is the list of pattern names passed to \<open>buzzer.pattern\<close> and the alarm
  state afterwards. At most one \<open>should_alert\<close> runs, so one clock reading suffices.
\<close>

definition alert_with :: "string \<Rightarrow> string \<Rightarrow> real \<Rightarrow> alarm_state \<Rightarrow> string list \<times> alarm_state" where
  "alert_with alarm_id pat now st =
     (case should_alert alarm_id now st of (fire, st') \<Rightarrow> (if fire then [pat] else [], st'))"

definition check_raid :: "raid_status \<Rightarrow> real \<Rightarrow> alarm_state \<Rightarrow> string list \<times> alarm_state" where
  "check_raid rs now st =
     (let st_str = get_str (array_state rs);
          sa = get_str (sync_action rs)
      in if sublist ''degraded'' (lower st_str) then alert_with ''raid_degraded'' ''double'' now st
         else if sa \<in> set [''resync'', ''recovery'', ''recover'']
              then alert_with ''raid_resync'' ''short'' now st
         else ([], clear ''raid_resync'' (clear ''raid_degraded'' st)))"

text \<open>The module's \<open>_alarm_state = AlarmState(cooldown_seconds=300.0)\<close>.\<close>

definition alarm_state0 :: alarm_state where
  "alarm_state0 = \<lparr>cooldown = 300, last_alert = Map.empty\<rparr>"

section \<open>The conditions of the home page and of the alarm engine, in the words of the spec\<close>

text \<open>
  A sync is active: \<open>sync_action\<close> is present, not idle or frozen, and one of resync,
  recovery, recover, check, repair. The array is degraded: \<open>array_state\<close> is present
  and contains "degraded", case-insensitively.
\<close>

definition spec_sync_active :: "raid_status \<Rightarrow> bool" where
  "spec_sync_active rs =
     (case sync_action rs of
        None \<Rightarrow> False
      | Some sa \<Rightarrow> sa \<notin> {''idle'', ''frozen''} \<and>
                   sa \<in> {''resync'', ''recovery'', ''recover'', ''check'', ''repair''})"

definition spec_degraded :: "raid_status \<Rightarrow> bool" where
  "spec_degraded rs =
     (case array_state rs of
        None \<Rightarrow> False
      | Some st \<Rightarrow> sublist ''degraded'' (lower st))"

definition spec_header :: "string \<Rightarrow> string" where
  "spec_header sa =
     (if sa = ''resync'' then ''Resync''
      else if sa = ''recovery'' \<or> sa = ''recover'' then ''Recovery''
      else if sa = ''check'' then ''Check''
      else if sa = ''repair'' then ''Repair''
      else ''Syncing'')"

section \<open>Array status source: \<open>sources/mdadm.py\<close>, class \<open>MdadmSource\<close>\<close>

text \<open>
  The file system is a function from a path to the outcome of
  \<open>with open(path) as f: f.read()\<close>: the text, or the exception raised.
\<close>

type_synonym files = "string \<Rightarrow> py_exn + string"

definition is_digit_dot :: "char \<Rightarrow> bool" where
  "is_digit_dot c \<longleftrightarrow> is_digit c \<or> c = CHR ''.''"

definition dec :: "string \<Rightarrow> nat" where
  "dec s = foldl (\<lambda>a c. 10 * a + digit_val c) 0 s"

text \<open>
  \<open>float(s)\<close> on the strings that the group \<open>([\d\.]+)\<close> can capture, that is digits
  and dots: a \<open>ValueError\<close> unless there is at most one dot and at least one digit; the
  value is the decimal read exactly.
\<close>

definition py_float :: "string \<Rightarrow> py_exn + real" where
  "py_float s =
     (let ip = takeWhile is_digit s; r = dropWhile is_digit s in
      case r of
        [] \<Rightarrow> if ip = [] then Inl ValueError else Inr (real (dec ip))
      | c # fp \<Rightarrow>
          if c = CHR ''.'' \<and> list_all is_digit fp \<and> (ip \<noteq> [] \<or> fp \<noteq> [])
          then Inr (real (dec ip) + real (dec fp) / 10 ^ length fp)
          else Inl ValueError)"

text \<open>
  \<open>re.search\<close>: the pattern is tried at every offset of the text, leftmost first; the
  matcher \<open>m\<close> says what the pattern captures when it matches at the start of its
  argument.
\<close>

fun re_search :: "(string \<Rightarrow> 'a option) \<Rightarrow> string \<Rightarrow> 'a option" where
  "re_search m [] = m []"
| "re_search m (c # cs) = (case m (c # cs) of Some g \<Rightarrow> Some g | None \<Rightarrow> re_search m cs)"

text \<open>
  \<open>([\d\.]+)\<close> followed by a literal that starts with neither a digit nor a dot: the
  greedy group takes the whole run of digits and dots, and backtracking into the run cannot
  make the literal match.
\<close>

definition number_then :: "string \<Rightarrow> string \<Rightarrow> string option" where
  "number_then lit s =
     (let num = takeWhile is_digit_dot s; rest = dropWhile is_digit_dot s in
      if num \<noteq> [] \<and> prefix lit rest then Some num else None)"

text \<open>\<open>finish=([\d\.]+)min\<close> and \<open>speed=([\d\.]+)K/sec\<close>, at the start of \<open>s\<close>.\<close>

definition match_finish :: "string \<Rightarrow> string option" where
  "match_finish s =
     (if prefix ''finish='' s then number_then ''min'' (drop (length ''finish='') s) else None)"

definition match_speed :: "string \<Rightarrow> string option" where
  "match_speed s =
     (if prefix ''speed='' s then number_then ''K/sec'' (drop (length ''speed='') s) else None)"

text \<open>
  One alternative of \<open>(resync|check|recover|recovery)\<close>, then
  \<open>\s*=\s*([\d\.]+)%\<close>, at the start of \<open>s\<close>; the result is group 2.
\<close>

definition match_kw :: "string \<Rightarrow> string \<Rightarrow> string option" where
  "match_kw kw s =
     (if prefix kw s then
        (case dropWhile is_space (drop (length kw) s) of
           [] \<Rightarrow> None
         | c # s2 \<Rightarrow> if c = CHR ''='' then number_then ''%'' (dropWhile is_space s2) else None)
      else None)"

text \<open>The alternatives in the order of the pattern; the first that lets the rest match wins.\<close>

definition match_pct_tail :: "string \<Rightarrow> string option" where
  "match_pct_tail s =
     (case match_kw ''resync'' s of Some g \<Rightarrow> Some g | None \<Rightarrow>
      case match_kw ''check'' s of Some g \<Rightarrow> Some g | None \<Rightarrow>
      case match_kw ''recover'' s of Some g \<Rightarrow> Some g | None \<Rightarrow>
      match_kw ''recovery'' s)"

text \<open>
  \<open>{md_name} :.*?(resync|check|recover|recovery)\s*=\s*([\d\.]+)%\<close> with
  \<open>re.DOTALL\<close>, at the start of \<open>s\<close>: the literal name and " :", then the lazy
  \<open>.*?\<close>, which crosses line ends, stops at the first offset where the rest matches. The
  name is put into the pattern as it is; a resolved name (\<open>md\<close> and digits) has no
  special character.
\<close>

definition match_pct :: "string \<Rightarrow> string \<Rightarrow> string option" where
  "match_pct md s =
     (if prefix (md @ '' :'') s
      then re_search match_pct_tail (drop (length (md @ '' :'')) s) else None)"

text \<open>
  One step of the \<open>try\<close> block of lines 99-122: a match sets its key to \<open>float\<close> of
  the group; when \<open>float\<close> raises, \<open>except Exception: pass\<close> ends the block with the
  keys set so far (\<open>Inl\<close>).
\<close>

definition set_float ::
  "string option \<Rightarrow> (real \<Rightarrow> raid_status \<Rightarrow> raid_status) \<Rightarrow> raid_status
     \<Rightarrow> raid_status + raid_status" where
  "set_float m upd r =
     (case m of
        None \<Rightarrow> Inr r
      | Some g \<Rightarrow> (case py_float g of Inl e \<Rightarrow> Inl r | Inr v \<Rightarrow> Inr (upd v r)))"

definition parse_mdstat :: "string \<Rightarrow> string \<Rightarrow> raid_status \<Rightarrow> raid_status" where
  "parse_mdstat md mdstat result =
     (case set_float (re_search (match_pct md) mdstat) (\<lambda>v r. r\<lparr>progress := Some v\<rparr>) result of
        Inl r \<Rightarrow> r
      | Inr r1 \<Rightarrow>
     (case set_float (re_search match_finish mdstat) (\<lambda>v r. r\<lparr>finish_min := Some v\<rparr>) r1 of
        Inl r \<Rightarrow> r
      | Inr r2 \<Rightarrow>
     (case set_float (re_search match_speed mdstat) (\<lambda>v r. r\<lparr>speed_kps := Some v\<rparr>) r2 of
        Inl r \<Rightarrow> r
      | Inr r3 \<Rightarrow> r3)))"

text \<open>
  Lines 83-94: \<open>try: ... f.read().strip() ... except FileNotFoundError: pass\<close>. Only
  that exception is caught; any other leaves the function.
\<close>

definition read_sysfs :: "files \<Rightarrow> string \<Rightarrow> py_exn + string option" where
  "read_sysfs fs path =
     (case fs path of
        Inr text \<Rightarrow> Inr (Some (strip text))
      | Inl e \<Rightarrow> if e = FileNotFoundError then Inr None else Inl e)"

definition sync_running :: "string option \<Rightarrow> bool" where
  "sync_running sa = (case sa of None \<Rightarrow> False | Some a \<Rightarrow> a \<noteq> [] \<and> a \<notin> set [''idle'', ''frozen''])"

text \<open>
  \<open>_get_status()\<close> for a source whose \<open>md_name\<close> is known (given to the constructor
  or resolved before): \<open>None\<close> or the empty name returns \<open>{}\<close>.
\<close>

definition get_status :: "string option \<Rightarrow> files \<Rightarrow> py_exn + raid_status" where
  "get_status md_name fs =
     (case md_name of
        None \<Rightarrow> Inr no_status
      | Some md \<Rightarrow>
          if md = [] then Inr no_status
          else
            (case read_sysfs fs (''/sys/block/'' @ md @ ''/md/array_state'') of
               Inl e \<Rightarrow> Inl e
             | Inr st \<Rightarrow>
            (case read_sysfs fs (''/sys/block/'' @ md @ ''/md/sync_action'') of
               Inl e \<Rightarrow> Inl e
             | Inr sa \<Rightarrow>
                 (let result = no_status\<lparr>array_state := st, sync_action := sa\<rparr> in
                  if sync_running sa then
                    (case fs ''/proc/mdstat'' of
                       Inl e \<Rightarrow> Inr result
                     | Inr mdstat \<Rightarrow> Inr (parse_mdstat md mdstat result))
                  else Inr result))))"

text \<open>\<open>_fetch(key)\<close>: the status dict, the name, or \<open>None\<close> for any other key.\<close>

datatype mdadm_value = StatusVal raid_status | NameVal "string option" | NoneVal

definition mdadm_fetch :: "string option \<Rightarrow> (mdadm_value, files) fetch_fn" where
  "mdadm_fetch md_name key fs =
     (if key = ''status'' then
        (case get_status md_name fs of Inl e \<Rightarrow> Inl e | Inr r \<Rightarrow> Inr (StatusVal r))
      else if key = ''name'' then Inr (NameVal md_name)
      else Inr NoneVal, fs)"

text \<open>
  A file system where reading \<open>array_state\<close> of \<open>md0\<close> is refused, and nothing else
  exists.
\<close>

definition files_denied :: files where
  "files_denied path =
     (if path = ''/sys/block/md0/md/array_state'' then Inl PermissionError
      else Inl FileNotFoundError)"

text \<open>
  Two arrays resyncing at once; \<open>md1\<close> is the monitored one and \<open>md0\<close> comes first
  in \<open>/proc/mdstat\<close>.
\<close>

definition mdstat_two_arrays :: string where
  "mdstat_two_arrays =
     ''Personalities : [raid1]'' @ [CHR 0x0A] @
     ''md0 : active raid1 sdb1[1] sda1[0]'' @ [CHR 0x0A] @
     ''      [=>...]  resync = 10.0% (1/10) finish=5.0min speed=1000K/sec'' @ [CHR 0x0A] @
     ''md1 : active raid1 sdd1[1] sdc1[0]'' @ [CHR 0x0A] @
     ''      [==>..]  resync = 52.2% (5/10) finish=396.1min speed=99181K/sec'' @ [CHR 0x0A]"

definition files_two_arrays :: files where
  "files_two_arrays path =
     (if path = ''/sys/block/md1/md/array_state'' then Inr (''clean'' @ [CHR 0x0A])
      else if path = ''/sys/block/md1/md/sync_action'' then Inr (''resync'' @ [CHR 0x0A])
      else if path = ''/proc/mdstat'' then Inr mdstat_two_arrays
      else Inl FileNotFoundError)"

section \<open>Properties of the TTL cache\<close>

lemma same_keys_init: "same_keys init_source"
  by (simp add: same_keys_def init_source_def)

lemma same_keys_invalidate: "same_keys s \<Longrightarrow> same_keys (invalidate key s)"
  by (cases key) (auto simp: same_keys_def invalidate_def)

lemma same_keys_fetch_fresh:
  "same_keys (fst sw) \<Longrightarrow> same_keys (fst (snd (fetch_fresh fetch key now sw)))"
  by (auto simp: same_keys_def fetch_fresh_def split: prod.splits sum.splits)

lemma same_keys_get:
  "same_keys (fst sw) \<Longrightarrow> same_keys (fst (snd (get fetch key ttl_s now sw)))"
  by (auto simp: get_def same_keys_fetch_fresh split: option.splits)

lemma fetch_fresh_not_timestamp_error:
  "fst (fetch_fresh fetch key now sw) \<noteq> Inl (TimestampKeyError k)"
  by (auto simp: fetch_fresh_def split: prod.splits sum.splits)

lemma get_not_timestamp_error:
  assumes "same_keys (fst sw)"
  shows "fst (get fetch key ttl_s now sw) \<noteq> Inl (TimestampKeyError k)"
proof (cases "cache (fst sw) key")
  case None
  then show ?thesis
    by (simp add: get_def fetch_fresh_not_timestamp_error)
next
  case (Some v)
  then have "key \<in> dom (timestamps (fst sw))"
    using assms by (auto simp: same_keys_def)
  then obtain ts where "timestamps (fst sw) key = Some ts"
    by auto
  with Some show ?thesis
    by (simp add: get_def fetch_fresh_not_timestamp_error)
qed

lemma run_ops_invariant:
  "same_keys (fst sw) \<Longrightarrow>
     same_keys (fst (snd (run_ops fetch ops sw))) \<and>
     Inl (TimestampKeyError k) \<notin> set (fst (run_ops fetch ops sw))"
proof (induction ops arbitrary: sw)
  case Nil
  then show ?case by simp
next
  case (Cons op ops)
  show ?case
  proof (cases op)
    case (Get key ttl_s now)
    obtain r sw' where g: "get fetch key ttl_s now sw = (r, sw')"
      by (cases "get fetch key ttl_s now sw")
    have inv: "same_keys (fst sw')"
      using same_keys_get [OF Cons.prems, of fetch key ttl_s now] g by simp
    have r: "r \<noteq> Inl (TimestampKeyError k)"
      using get_not_timestamp_error [OF Cons.prems, of fetch key ttl_s now k] g by simp
    from Cons.IH [OF inv] r show ?thesis
      by (auto simp: Get g split: prod.splits)
  next
    case (Invalidate key)
    have "same_keys (fst (invalidate key (fst sw), snd sw))"
      using Cons.prems by (simp add: same_keys_invalidate)
    from Cons.IH [OF this] show ?thesis
      by (simp add: Invalidate)
  qed
qed

lemma counting_fst: "fst (snd (counting fetch key (n, w))) = Suc n"
  by (simp add: counting_def split: prod.splits)

lemma get_hit:
  "cache s k = Some v \<Longrightarrow> timestamps s k = Some ts \<Longrightarrow> now - ts < t \<Longrightarrow>
     get fetch k t now (s, w) = (Inr v, (s, w))"
  by (simp add: get_def)

lemma get_miss:
  assumes "same_keys s"
    and "\<not> (\<exists>v ts. cache s k = Some v \<and> timestamps s k = Some ts \<and> now - ts < t)"
  shows "get fetch k t now (s, w) = fetch_fresh fetch k now (s, w)"
proof (cases "cache s k")
  case None
  then show ?thesis by (simp add: get_def)
next
  case (Some v)
  then have "k \<in> dom (timestamps s)"
    using assms(1) by (auto simp: same_keys_def)
  then obtain ts where ts: "timestamps s k = Some ts"
    by auto
  with Some assms(2) have "\<not> now - ts < t"
    by simp
  with Some ts show ?thesis
    by (simp add: get_def)
qed

text \<open>
  C1. Under the key-set invariant of the two dicts: if an entry for \<open>k\<close> exists and
  \<open>now - fetched_at < t\<close>, \<open>get(k, t)\<close> returns the stored value and the fetch counter
  and the world are untouched (no call of \<open>_fetch\<close>). Otherwise the counter goes up by
  exactly one, and when the fetch returns \<open>r\<close> the entry's value and timestamp become
  \<open>r\<close> and \<open>now\<close> and \<open>r\<close> is returned. The same holds when \<open>r\<close> is \<open>None\<close>: it is
  stored, and a later \<open>get\<close> at \<open>now2\<close> with \<open>now2 - now < t\<close> serves \<open>None\<close> from
  the cache without another fetch.
\<close>

theorem get_ttl_semantics:
  fixes s :: "'a option cached_data_source"
  assumes "same_keys s"
  shows
    "(cache s k = Some v \<and> timestamps s k = Some ts \<and> now - ts < t \<longrightarrow>
        get (counting fetch) k t now (s, (n, w)) = (Inr v, (s, (n, w)))) \<and>
     (\<not> (\<exists>v ts. cache s k = Some v \<and> timestamps s k = Some ts \<and> now - ts < t) \<longrightarrow>
        fst (snd (snd (get (counting fetch) k t now (s, (n, w))))) = Suc n \<and>
        (fetch k w = (Inr r, w') \<longrightarrow>
           get (counting fetch) k t now (s, (n, w)) =
             (Inr r, (s\<lparr>cache := (cache s)(k \<mapsto> r), timestamps := (timestamps s)(k \<mapsto> now)\<rparr>,
                      (Suc n, w')))) \<and>
        (fetch k w = (Inr None, w') \<and> now2 - now < t \<longrightarrow>
           get (counting fetch) k t now2 (snd (get (counting fetch) k t now (s, (n, w)))) =
             (Inr None, snd (get (counting fetch) k t now (s, (n, w))))))"
proof (intro conjI impI)
  assume "cache s k = Some v \<and> timestamps s k = Some ts \<and> now - ts < t"
  then show "get (counting fetch) k t now (s, (n, w)) = (Inr v, (s, (n, w)))"
    by (simp add: get_hit)
next
  assume miss: "\<not> (\<exists>v ts. cache s k = Some v \<and> timestamps s k = Some ts \<and> now - ts < t)"
  have g: "get (counting fetch) k t now (s, (n, w)) =
             fetch_fresh (counting fetch) k now (s, (n, w))"
    by (rule get_miss [OF assms miss])
  show "fst (snd (snd (get (counting fetch) k t now (s, (n, w))))) = Suc n"
    by (simp add: g fetch_fresh_def counting_def split: prod.splits sum.splits)
  {
    fix r' assume f: "fetch k w = (Inr r', w')"
    have "get (counting fetch) k t now (s, (n, w)) =
            (Inr r', (s\<lparr>cache := (cache s)(k \<mapsto> r'), timestamps := (timestamps s)(k \<mapsto> now)\<rparr>,
                     (Suc n, w')))"
      by (simp add: g fetch_fresh_def counting_def f)
  } note stored = this
  {
    assume f: "fetch k w = (Inr r, w')"
    then show "get (counting fetch) k t now (s, (n, w)) =
            (Inr r, (s\<lparr>cache := (cache s)(k \<mapsto> r), timestamps := (timestamps s)(k \<mapsto> now)\<rparr>,
                     (Suc n, w')))"
      by (rule stored)
  }
  {
    assume "fetch k w = (Inr None, w') \<and> now2 - now < t"
    then have f: "fetch k w = (Inr None, w')" and fresh: "now2 - now < t"
      by simp_all
    show "get (counting fetch) k t now2 (snd (get (counting fetch) k t now (s, (n, w)))) =
            (Inr None, snd (get (counting fetch) k t now (s, (n, w))))"
      using fresh by (simp add: stored [OF f] get_hit)
  }
qed

theorem get_ttl_semantics_witness:
  "same_keys (init_source :: unit option cached_data_source) \<and>
   get (counting (\<lambda>k w. (Inr None, w))) ''x'' 1 100 (init_source, (0, ())) =
     (Inr (None :: unit option),
      (\<lparr>cache = [''x'' \<mapsto> None], timestamps = [''x'' \<mapsto> 100]\<rparr>, (Suc 0, ()))) \<and>
   get (counting (\<lambda>k w. (Inr None, w))) ''x'' 1 (100 + 1 / 2)
       (\<lparr>cache = [''x'' \<mapsto> (None :: unit option)], timestamps = [''x'' \<mapsto> 100]\<rparr>, (Suc 0, ())) =
     (Inr None, (\<lparr>cache = [''x'' \<mapsto> None], timestamps = [''x'' \<mapsto> 100]\<rparr>, (Suc 0, ())))"
  using get_ttl_semantics [OF same_keys_init,
      of "''x''" _ _ 100 1 "\<lambda>k w. (Inr None, w)" 0 "()" None "()" "100 + 1 / 2"]
  by (auto simp: init_source_def same_keys_def)

text \<open>
  C9. Starting from the constructor's empty dicts, after every sequence of \<open>get\<close> and
  \<open>invalidate\<close> calls (whatever the fetch function does, raising included) \<open>_cache\<close>
  and \<open>_timestamps\<close> have the same key set, and no \<open>get\<close> of the sequence raised the
  \<open>KeyError\<close> of the timestamp lookup on the hit path.
\<close>

theorem cache_maps_same_keys:
  "same_keys (fst (snd (run_ops fetch ops (init_source, w)))) \<and>
   Inl (TimestampKeyError k) \<notin> set (fst (run_ops fetch ops (init_source, w)))"
  using run_ops_invariant [of "(init_source, w)" fetch ops k]
  by (simp add: same_keys_init)

section \<open>Properties of the alarm cooldown\<close>

lemma should_alert_cooldown [simp]: "cooldown (snd (should_alert a now st)) = cooldown st"
  by (simp add: should_alert_def Let_def)

lemma clear_cooldown [simp]: "cooldown (clear a st) = cooldown st"
  by (simp add: clear_def)

lemma alarm_run_cooldown [simp]: "cooldown (alarm_run cs st) = cooldown st"
proof (induction cs arbitrary: st)
  case Nil
  show ?case by simp
next
  case (Cons c cs)
  then show ?case by (cases c) simp_all
qed

lemma should_alert_true_stamp:
  "should_alert a now st = (True, st1) \<Longrightarrow> last_alert st1 a = Some now \<and> cooldown st1 = cooldown st"
  by (auto simp: should_alert_def Let_def split: if_splits)

lemma should_alert_other: "b \<noteq> a \<Longrightarrow> last_alert (snd (should_alert b now st)) a = last_alert st a"
  by (simp add: should_alert_def Let_def)

lemma clear_other: "b \<noteq> a \<Longrightarrow> last_alert (clear b st) a = last_alert st a"
  by (simp add: clear_def)

lemma alarm_run_other:
  "\<forall>c \<in> set cs. call_id c \<noteq> a \<Longrightarrow> last_alert (alarm_run cs st) a = last_alert st a"
proof (induction cs arbitrary: st)
  case Nil
  show ?case by simp
next
  case (Cons c cs)
  then show ?case
    by (cases c) (simp_all add: should_alert_other clear_other)
qed

text \<open>Without a \<open>clear\<close> of \<open>a\<close>, the stamp of \<open>a\<close> stays present and never goes back.\<close>

lemma alarm_run_stamp_mono:
  "last_alert st a = Some t0 \<Longrightarrow> 0 \<le> cooldown st \<Longrightarrow> Clear a \<notin> set cs \<Longrightarrow>
     \<exists>t1. last_alert (alarm_run cs st) a = Some t1 \<and> t0 \<le> t1"
proof (induction cs arbitrary: st t0)
  case Nil
  then show ?case by simp
next
  case (Cons c cs)
  show ?case
  proof (cases c)
    case (ShouldAlert b now)
    let ?st' = "snd (should_alert b now st)"
    have "\<exists>t. last_alert ?st' a = Some t \<and> t0 \<le> t"
      using Cons.prems(1,2) by (auto simp: should_alert_def Let_def)
    then obtain t where t: "last_alert ?st' a = Some t" "t0 \<le> t"
      by blast
    have c: "0 \<le> cooldown ?st'"
      using Cons.prems(2) by simp
    have nc: "Clear a \<notin> set cs"
      using Cons.prems(3) by simp
    from Cons.IH [OF t(1) c nc] t(2) show ?thesis
      by (auto simp: ShouldAlert)
  next
    case (Clear b)
    then have ne: "b \<noteq> a"
      using Cons.prems(3) by auto
    have l: "last_alert (clear b st) a = Some t0"
      using ne Cons.prems(1) by (simp add: clear_other)
    have c: "0 \<le> cooldown (clear b st)"
      using Cons.prems(2) by simp
    have nc: "Clear a \<notin> set cs"
      using Cons.prems(3) by simp
    from Cons.IH [OF l c nc] show ?thesis
      by (simp add: Clear)
  qed
qed

text \<open>Polls that come too early, and calls for other ids, leave the stamp of \<open>a\<close> alone.\<close>

lemma alarm_run_early:
  "last_alert st a = Some t0 \<Longrightarrow> \<forall>c \<in> set cs. early_poll a t0 (cooldown st) c \<Longrightarrow>
     last_alert (alarm_run cs st) a = Some t0"
proof (induction cs arbitrary: st)
  case Nil
  then show ?case by simp
next
  case (Cons c cs)
  show ?case
  proof (cases c)
    case (ShouldAlert b now)
    let ?st' = "snd (should_alert b now st)"
    have "last_alert ?st' a = Some t0"
      using Cons.prems by (auto simp: ShouldAlert should_alert_def Let_def)
    moreover have "\<forall>c \<in> set cs. early_poll a t0 (cooldown ?st') c"
      using Cons.prems(2) by simp
    ultimately show ?thesis
      using Cons.IH [of ?st'] by (simp add: ShouldAlert)
  next
    case (Clear b)
    have "last_alert (clear b st) a = Some t0"
      using Cons.prems by (auto simp: Clear clear_def)
    moreover have "\<forall>c \<in> set cs. early_poll a t0 (cooldown (clear b st)) c"
      using Cons.prems(2) by simp
    ultimately show ?thesis
      using Cons.IH [of "clear b st"] by (simp add: Clear)
  qed
qed

lemma should_alert_after_stamp:
  "last_alert st a = Some t0 \<Longrightarrow> fst (should_alert a now st) \<longleftrightarrow> now - t0 \<ge> cooldown st"
  by (simp add: should_alert_def Let_def)

text \<open>
  C2. For an \<open>AlarmState\<close> with a non-negative cooldown:
  (1) if \<open>should_alert(a)\<close> returns true at \<open>ti\<close> and again at \<open>tj\<close>, with any calls in
  between except \<open>clear(a)\<close>, then \<open>tj - ti \<ge> cooldown\<close>;
  (2) after \<open>clear(a)\<close>, whatever calls for other ids follow, the next
  \<open>should_alert(a)\<close> returns true at once, for a clock reading that is at least the
  cooldown (the stamp of a cleared id defaults to 0, and \<open>time.time()\<close> counts seconds
  since 1970);
  (3) a call that returns false leaves the state unchanged;
  (4) after a true result at \<open>ti\<close>, while \<open>a\<close> is polled only before the cooldown has
  elapsed and is not cleared, the first poll at \<open>tj\<close> with \<open>tj - ti \<ge> cooldown\<close>
  returns true;
  (5) calls for other ids never change the stamp of \<open>a\<close>.
\<close>

theorem alarm_cooldown:
  "(0 \<le> cooldown st \<and> should_alert a ti st = (True, st1) \<and> Clear a \<notin> set mid \<and>
      fst (should_alert a tj (alarm_run mid st1)) \<longrightarrow> tj - ti \<ge> cooldown st) \<and>
   ((\<forall>c \<in> set others. call_id c \<noteq> a) \<and> cooldown st \<le> now \<longrightarrow>
      fst (should_alert a now (alarm_run others (clear a st)))) \<and>
   (\<not> fst (should_alert a now st) \<longrightarrow> snd (should_alert a now st) = st) \<and>
   (should_alert a ti st = (True, st1) \<and> (\<forall>c \<in> set mid. early_poll a ti (cooldown st) c) \<and>
      tj - ti \<ge> cooldown st \<longrightarrow> fst (should_alert a tj (alarm_run mid st1))) \<and>
   ((\<forall>c \<in> set others. call_id c \<noteq> a) \<longrightarrow>
      last_alert (alarm_run others st) a = last_alert st a)"
proof (intro conjI impI)
  assume h: "0 \<le> cooldown st \<and> should_alert a ti st = (True, st1) \<and> Clear a \<notin> set mid \<and>
      fst (should_alert a tj (alarm_run mid st1))"
  then have s1: "last_alert st1 a = Some ti" "cooldown st1 = cooldown st"
    using should_alert_true_stamp [of a ti st st1] by simp_all
  from h s1 obtain t1 where t1: "last_alert (alarm_run mid st1) a = Some t1" "ti \<le> t1"
    using alarm_run_stamp_mono [of st1 a ti mid] by auto
  from h have "tj - t1 \<ge> cooldown (alarm_run mid st1)"
    using should_alert_after_stamp [OF t1(1), of tj] by simp
  with t1(2) s1(2) show "tj - ti \<ge> cooldown st"
    by simp
next
  assume h: "(\<forall>c \<in> set others. call_id c \<noteq> a) \<and> cooldown st \<le> now"
  then have "last_alert (alarm_run others (clear a st)) a = last_alert (clear a st) a"
    by (simp add: alarm_run_other)
  then have "last_alert (alarm_run others (clear a st)) a = None"
    by (simp add: clear_def)
  with h show "fst (should_alert a now (alarm_run others (clear a st)))"
    by (simp add: should_alert_def Let_def)
next
  assume "\<not> fst (should_alert a now st)"
  then show "snd (should_alert a now st) = st"
    by (simp add: should_alert_def Let_def split: if_splits)
next
  assume h: "should_alert a ti st = (True, st1) \<and>
      (\<forall>c \<in> set mid. early_poll a ti (cooldown st) c) \<and> tj - ti \<ge> cooldown st"
  then have s1: "last_alert st1 a = Some ti" "cooldown st1 = cooldown st"
    using should_alert_true_stamp [of a ti st st1] by simp_all
  from h s1 have "last_alert (alarm_run mid st1) a = Some ti"
    using alarm_run_early [of st1 a ti mid] by simp
  from should_alert_after_stamp [OF this, of tj] h s1(2)
  show "fst (should_alert a tj (alarm_run mid st1))"
    by simp
next
  assume "\<forall>c \<in> set others. call_id c \<noteq> a"
  then show "last_alert (alarm_run others st) a = last_alert st a"
    by (rule alarm_run_other)
qed

theorem alarm_cooldown_witness:
  "should_alert ''raid_resync'' 1000 alarm_state0 =
     (True, \<lparr>cooldown = 300, last_alert = [''raid_resync'' \<mapsto> 1000]\<rparr>) \<and>
   fst (should_alert ''raid_resync'' 1300
     (alarm_run [ShouldAlert ''raid_resync'' 1100, Clear ''temp_sda'']
        \<lparr>cooldown = 300, last_alert = [''raid_resync'' \<mapsto> 1000]\<rparr>)) \<and>
   (1300 :: real) - 1000 \<ge> cooldown alarm_state0 \<and>
   fst (should_alert ''raid_resync'' 1000
     (alarm_run [ShouldAlert ''temp_sda'' 1000]
        (clear ''raid_resync'' \<lparr>cooldown = 300, last_alert = [''raid_resync'' \<mapsto> 1000]\<rparr>)))"
proof -
  let ?st1 = "\<lparr>cooldown = 300, last_alert = [''raid_resync'' \<mapsto> 1000]\<rparr>"
  let ?mid = "[ShouldAlert ''raid_resync'' 1100, Clear ''temp_sda'']"
  let ?others = "[ShouldAlert ''temp_sda'' 1000]"
  have c0: "0 \<le> cooldown alarm_state0"
    by (simp add: alarm_state0_def)
  have first: "should_alert ''raid_resync'' 1000 alarm_state0 = (True, ?st1)"
    by (simp add: should_alert_def alarm_state0_def Let_def)
  have early: "\<forall>c \<in> set ?mid. early_poll ''raid_resync'' 1000 (cooldown alarm_state0) c"
    by (simp add: alarm_state0_def)
  have late: "(1300 :: real) - 1000 \<ge> cooldown alarm_state0"
    by (simp add: alarm_state0_def)
  have again: "fst (should_alert ''raid_resync'' 1300 (alarm_run ?mid ?st1))"
    using alarm_cooldown [of alarm_state0 "''raid_resync''" 1000 ?st1 ?mid 1300 "[]" 1000]
      first early late by blast
  have noclear: "Clear ''raid_resync'' \<notin> set ?mid"
    by simp
  have apart: "(1300 :: real) - 1000 \<ge> cooldown alarm_state0"
    using alarm_cooldown [of alarm_state0 "''raid_resync''" 1000 ?st1 ?mid 1300 "[]" 1000]
      c0 first noclear again by blast
  have oth: "\<forall>c \<in> set ?others. call_id c \<noteq> ''raid_resync''"
    by simp
  have now: "cooldown ?st1 \<le> 1000"
    by simp
  have cleared: "fst (should_alert ''raid_resync'' 1000 (alarm_run ?others (clear ''raid_resync'' ?st1)))"
    using alarm_cooldown [of ?st1 "''raid_resync''" 1000 ?st1 "[]" 1000 ?others 1000] oth now
    by blast
  from first again apart cleared show ?thesis
    by blast
qed

section \<open>Properties of the navigation state machine\<close>

lemma on_button_page:
  "pages \<noteq> [] \<Longrightarrow>
     on_button pages now st =
       (Inr (), \<lparr>current_page = (if current_page st = - 1 then 0
                                 else (current_page st + 1) mod int (length pages)),
                 last_nav_at = now\<rparr>)"
  by (simp add: on_button_def Let_def)

lemma on_button_in_range:
  "pages \<noteq> [] \<Longrightarrow> page_in_range (length pages) (snd (on_button pages now st))"
  by (simp add: on_button_page page_in_range_def)

lemma idle_timeout_in_range:
  "page_in_range n st \<Longrightarrow> page_in_range n (idle_timeout now st)"
  by (simp add: idle_timeout_def page_in_range_def)

lemma nav_run_in_range:
  "pages \<noteq> [] \<Longrightarrow> page_in_range (length pages) st \<Longrightarrow>
     page_in_range (length pages) (nav_run pages es st)"
proof (induction es arbitrary: st)
  case Nil
  then show ?case by simp
next
  case (Cons e es)
  then show ?case
    by (cases e) (simp_all add: on_button_in_range idle_timeout_in_range)
qed

text \<open>\<open>k\<close> presses from a browse page \<open>i\<close> lead to page \<open>(i + k) mod N\<close>.\<close>

lemma presses_advance:
  "pages \<noteq> [] \<Longrightarrow> 0 \<le> current_page st \<Longrightarrow>
     current_page (nav_run pages (map ButtonPressed ts) st) =
       (if ts = [] then current_page st
        else (current_page st + int (length ts)) mod int (length pages))"
proof (induction ts arbitrary: st)
  case Nil
  show ?case by simp
next
  case (Cons t ts)
  let ?st' = "snd (on_button pages t st)"
  have p: "current_page ?st' = (current_page st + 1) mod int (length pages)"
    using Cons.prems by (simp add: on_button_page)
  then have nn: "0 \<le> current_page ?st'"
    using Cons.prems(1) by simp
  show ?case
  proof (cases "ts = []")
    case True
    then show ?thesis using p by simp
  next
    case False
    have "current_page (nav_run pages (map ButtonPressed ts) ?st') =
            (current_page ?st' + int (length ts)) mod int (length pages)"
      using Cons.IH [OF Cons.prems(1) nn] False by simp
    also have "\<dots> = (current_page st + 1 + int (length ts)) mod int (length pages)"
      by (simp add: p mod_add_left_eq)
    also have "\<dots> = (current_page st + int (length (t # ts))) mod int (length pages)"
      by (simp add: algebra_simps)
    finally show ?thesis
      by simp
  qed
qed

text \<open>
  C4. With a non-empty list of \<open>N\<close> browse pages: a press from \<open>current_page = -1\<close>
  sets the page to 0 and a press from page \<open>i\<close> sets it to \<open>(i + 1) mod N\<close>, both
  setting \<open>last_nav_at\<close> to \<open>now\<close>; \<open>N\<close> presses from page 0 return to page 0; the idle
  check of a tick sets the page to \<open>-1\<close> exactly when it is not \<open>-1\<close> and
  \<open>now - last_nav_at \<ge> NAV_TIMEOUT = 10\<close>, and changes nothing else; and from a state
  with page \<open>-1\<close>, after every sequence of presses and ticks the page is \<open>-1\<close> or in
  \<open>[0, N)\<close>.
\<close>

theorem navigation_state_machine:
  assumes "pages \<noteq> []"
  shows
    "(current_page st = - 1 \<longrightarrow>
        on_button pages now st = (Inr (), \<lparr>current_page = 0, last_nav_at = now\<rparr>)) \<and>
     (current_page st \<noteq> - 1 \<longrightarrow>
        on_button pages now st =
          (Inr (), \<lparr>current_page = (current_page st + 1) mod int (length pages),
                    last_nav_at = now\<rparr>)) \<and>
     (current_page st = 0 \<and> length ts = length pages \<longrightarrow>
        current_page (nav_run pages (map ButtonPressed ts) st) = 0) \<and>
     NAV_TIMEOUT = 10 \<and>
     idle_timeout now st =
       (if current_page st \<noteq> - 1 \<and> now - last_nav_at st \<ge> NAV_TIMEOUT
        then \<lparr>current_page = - 1, last_nav_at = last_nav_at st\<rparr> else st) \<and>
     (current_page st = - 1 \<longrightarrow>
        current_page (nav_run pages es st) = - 1 \<or>
        (0 \<le> current_page (nav_run pages es st) \<and>
         current_page (nav_run pages es st) < int (length pages)))"
proof (intro conjI impI)
  assume "current_page st = - 1"
  then show "on_button pages now st = (Inr (), \<lparr>current_page = 0, last_nav_at = now\<rparr>)"
    using assms by (simp add: on_button_page)
next
  assume "current_page st \<noteq> - 1"
  then show "on_button pages now st =
      (Inr (), \<lparr>current_page = (current_page st + 1) mod int (length pages), last_nav_at = now\<rparr>)"
    using assms by (simp add: on_button_page)
next
  assume h: "current_page st = 0 \<and> length ts = length pages"
  then have "ts \<noteq> []"
    using assms by auto
  then show "current_page (nav_run pages (map ButtonPressed ts) st) = 0"
    using presses_advance [OF assms, of st ts] h by simp
next
  show "NAV_TIMEOUT = 10"
    by (simp add: NAV_TIMEOUT_def)
next
  show "idle_timeout now st =
      (if current_page st \<noteq> - 1 \<and> now - last_nav_at st \<ge> NAV_TIMEOUT
       then \<lparr>current_page = - 1, last_nav_at = last_nav_at st\<rparr> else st)"
    by (simp add: idle_timeout_def)
next
  assume "current_page st = - 1"
  then have "page_in_range (length pages) st"
    by (simp add: page_in_range_def)
  from nav_run_in_range [OF assms this, of es]
  show "current_page (nav_run pages es st) = - 1 \<or>
      (0 \<le> current_page (nav_run pages es st) \<and>
       current_page (nav_run pages es st) < int (length pages))"
    by (simp add: page_in_range_def)
qed

theorem navigation_state_machine_witness:
  "BROWSE_PAGES \<noteq> [] \<and>
   on_button BROWSE_PAGES 3 \<lparr>current_page = - 1, last_nav_at = 0\<rparr> =
     (Inr (), \<lparr>current_page = 0, last_nav_at = 3\<rparr>) \<and>
   on_button BROWSE_PAGES 4 \<lparr>current_page = 4, last_nav_at = 3\<rparr> =
     (Inr (), \<lparr>current_page = 0, last_nav_at = 4\<rparr>) \<and>
   current_page (nav_run BROWSE_PAGES (map ButtonPressed [4, 5, 6, 7, 8])
     \<lparr>current_page = 0, last_nav_at = 3\<rparr>) = 0 \<and>
   idle_timeout 13 \<lparr>current_page = 0, last_nav_at = 3\<rparr> = \<lparr>current_page = - 1, last_nav_at = 3\<rparr>"
proof -
  have ne: "BROWSE_PAGES \<noteq> []"
    by (simp add: BROWSE_PAGES_def)
  have len: "length BROWSE_PAGES = 5"
    by (simp add: BROWSE_PAGES_def)
  have a: "on_button BROWSE_PAGES 3 \<lparr>current_page = - 1, last_nav_at = 0\<rparr> =
      (Inr (), \<lparr>current_page = 0, last_nav_at = 3\<rparr>)"
    using navigation_state_machine [OF ne, of "\<lparr>current_page = - 1, last_nav_at = 0\<rparr>" 3 "[]" "[]"]
    by simp
  have b: "on_button BROWSE_PAGES 4 \<lparr>current_page = 4, last_nav_at = 3\<rparr> =
      (Inr (), \<lparr>current_page = 0, last_nav_at = 4\<rparr>)"
    using navigation_state_machine [OF ne, of "\<lparr>current_page = 4, last_nav_at = 3\<rparr>" 4 "[]" "[]"]
    by (simp add: len)
  have c: "current_page (nav_run BROWSE_PAGES (map ButtonPressed [4, 5, 6, 7, 8])
      \<lparr>current_page = 0, last_nav_at = 3\<rparr>) = 0"
    using navigation_state_machine [OF ne, of "\<lparr>current_page = 0, last_nav_at = 3\<rparr>" 13
        "[4, 5, 6, 7, 8]" "[]"]
    by (simp add: len)
  have d: "idle_timeout 13 \<lparr>current_page = 0, last_nav_at = 3\<rparr> =
      \<lparr>current_page = - 1, last_nav_at = 3\<rparr>"
    using navigation_state_machine [OF ne, of "\<lparr>current_page = 0, last_nav_at = 3\<rparr>" 13 "[]" "[]"]
    by simp
  from ne a b c d show ?thesis
    by blast
qed

section \<open>Properties of the buzzer patterns\<close>

lemma patterns_dom:
  "patterns name = None \<longleftrightarrow> name \<notin> {''short'', ''long'', ''double'', ''triple''}"
  by (simp add: patterns_def)

text \<open>
  C10. \<open>pattern(name)\<close> never raises the \<open>KeyError\<close> of the dict subscript: every name
  yields a trace, and every name outside short, long, double and triple yields the trace
  of "short", one beep of 100 ms followed by a pause of 100 ms.
\<close>

theorem pattern_fallback:
  "(\<exists>trace. pattern b name = Inr trace) \<and>
   (name \<notin> {''short'', ''long'', ''double'', ''triple''} \<longrightarrow>
      pattern b name = pattern b ''short'' \<and>
      pattern b name =
        Inr [PwmStart (pin b) (frequency b) 50, SleepMs 100, PwmStop, SleepMs 100])"
proof -
  have short: "patterns ''short'' = Some [(100, 100)]"
    by (simp add: patterns_def)
  show ?thesis
  proof (cases "patterns name")
    case None
    then show ?thesis
      by (simp add: pattern_def Let_def short beep_def)
  next
    case (Some steps)
    then have "name \<in> {''short'', ''long'', ''double'', ''triple''}"
      using patterns_dom [of name] by auto
    with Some show ?thesis
      by (simp add: pattern_def Let_def)
  qed
qed

theorem pattern_fallback_witness:
  "''beep'' \<notin> {''short'', ''long'', ''double'', ''triple''} \<and>
   pattern \<lparr>pin = 18, frequency = 2000\<rparr> ''beep'' =
     Inr [PwmStart 18 2000 50, SleepMs 100, PwmStop, SleepMs 100]"
  using pattern_fallback [of "\<lparr>pin = 18, frequency = 2000\<rparr>" "''beep''"]
  by auto

section \<open>Properties of the home page\<close>

lemma render_resync_view:
  "render_resync rs sa =
     SyncView (spec_header sa)
       [(''Prog:'', case progress rs of None \<Rightarrow> ''N/A'' | Some p \<Rightarrow> fmt_fixed 1 p @ ''%''),
        (''Rate:'', case speed_kps rs of None \<Rightarrow> ''N/A'' | Some k \<Rightarrow> fmt_rate (Some k)),
        (''ETA:'', case finish_min rs of None \<Rightarrow> ''N/A'' | Some f \<Rightarrow> fmt_time (Some (f * 60)))]"
  by (simp add: render_resync_def header_map_def spec_header_def Let_def)

lemma render_degraded_or_clean:
  "\<not> spec_sync_active rs \<Longrightarrow>
     render rs = (if spec_degraded rs then DegradedView else CleanView)"
  by (cases "sync_action rs"; cases "array_state rs")
     (auto simp: render_def Let_def spec_sync_active_def spec_degraded_def get_str_def lower_def)

lemma render_sync:
  "spec_sync_active rs \<Longrightarrow> render rs = render_resync rs (get_str (sync_action rs))"
  by (cases "sync_action rs")
     (auto simp: render_def Let_def spec_sync_active_def get_str_def)

text \<open>
  C3. Whenever a sync is active the sync view is drawn, degraded or not; the degraded
  view is drawn exactly when no sync is active and the array is degraded; the clean view
  exactly when neither holds. With \<open>sync_action = "resync"\<close> and
  \<open>array_state = "clean, degraded"\<close> the view is the sync view headed "Resync".
\<close>

theorem home_priority_cascade:
  "(spec_sync_active rs \<longrightarrow> (\<exists>header lines. render rs = SyncView header lines)) \<and>
   (render rs = DegradedView \<longleftrightarrow> \<not> spec_sync_active rs \<and> spec_degraded rs) \<and>
   (render rs = CleanView \<longleftrightarrow> \<not> spec_sync_active rs \<and> \<not> spec_degraded rs) \<and>
   (sync_action rs = Some ''resync'' \<and> array_state rs = Some ''clean, degraded'' \<longrightarrow>
      spec_degraded rs \<and> (\<exists>lines. render rs = SyncView ''Resync'' lines))"
proof (intro conjI impI)
  assume "spec_sync_active rs"
  then show "\<exists>header lines. render rs = SyncView header lines"
    by (simp add: render_sync render_resync_view)
next
  show "render rs = DegradedView \<longleftrightarrow> \<not> spec_sync_active rs \<and> spec_degraded rs"
    by (cases "spec_sync_active rs")
       (simp_all add: render_sync render_resync_view render_degraded_or_clean)
next
  show "render rs = CleanView \<longleftrightarrow> \<not> spec_sync_active rs \<and> \<not> spec_degraded rs"
    by (cases "spec_sync_active rs")
       (simp_all add: render_sync render_resync_view render_degraded_or_clean)
next
  assume h: "sync_action rs = Some ''resync'' \<and> array_state rs = Some ''clean, degraded''"
  then show "spec_degraded rs"
    by (simp add: spec_degraded_def lower_def lower_char_def sublist_Cons_right)
next
  assume h: "sync_action rs = Some ''resync'' \<and> array_state rs = Some ''clean, degraded''"
  then have "spec_sync_active rs"
    by (simp add: spec_sync_active_def)
  then have "render rs = render_resync rs ''resync''"
    using h by (simp add: render_sync get_str_def)
  then show "\<exists>lines. render rs = SyncView ''Resync'' lines"
    by (simp add: render_resync_view spec_header_def)
qed

theorem home_priority_cascade_witness:
  "spec_sync_active \<lparr>array_state = Some ''clean, degraded'', sync_action = Some ''resync'',
      progress = None, finish_min = None, speed_kps = None\<rparr> \<and>
   spec_degraded \<lparr>array_state = Some ''clean, degraded'', sync_action = Some ''resync'',
      progress = None, finish_min = None, speed_kps = None\<rparr> \<and>
   (\<exists>lines. render \<lparr>array_state = Some ''clean, degraded'', sync_action = Some ''resync'',
      progress = None, finish_min = None, speed_kps = None\<rparr> = SyncView ''Resync'' lines)"
proof -
  let ?rs = "\<lparr>array_state = Some ''clean, degraded'', sync_action = Some ''resync'',
      progress = None, finish_min = None, speed_kps = None\<rparr>"
  have a: "spec_sync_active ?rs"
    by (simp add: spec_sync_active_def)
  have h: "sync_action ?rs = Some ''resync'' \<and> array_state ?rs = Some ''clean, degraded''"
    by simp
  from home_priority_cascade [of ?rs] h
  have "spec_degraded ?rs \<and> (\<exists>lines. render ?rs = SyncView ''Resync'' lines)"
    by blast
  with a show ?thesis
    by blast
qed

text \<open>
  C8. The sync view's header is the fixed lookup of \<open>sync_action\<close>, with "Syncing" for
  any value outside the table, and whenever a sync is active the home page is that sync
  view. In the scenario \<open>sync_action = "resync"\<close>, progress 52.2, speed 99181 K/sec,
  finish 396.1 min, the page shows header "Resync", progress "52.2%", rate "96.9M/s"
  and ETA "6h 36m".
\<close>

theorem sync_view_formatting:
  "(\<exists>lines. render_resync rs sa = SyncView (spec_header sa) lines) \<and>
   spec_header ''resync'' = ''Resync'' \<and> spec_header ''recovery'' = ''Recovery'' \<and>
   spec_header ''recover'' = ''Recovery'' \<and> spec_header ''check'' = ''Check'' \<and>
   spec_header ''repair'' = ''Repair'' \<and> spec_header ''reshape'' = ''Syncing'' \<and>
   (spec_sync_active rs \<longrightarrow>
      (\<exists>lines. render rs = SyncView (spec_header (get_str (sync_action rs))) lines)) \<and>
   render \<lparr>array_state = Some ''clean'', sync_action = Some ''resync'',
           progress = Some (522 / 10), finish_min = Some (3961 / 10),
           speed_kps = Some 99181\<rparr> =
     SyncView ''Resync''
       [(''Prog:'', ''52.2%''), (''Rate:'', ''96.9M/s''), (''ETA:'', ''6h 36m'')]"
proof -
  have scen: "render \<lparr>array_state = Some ''clean'', sync_action = Some ''resync'',
           progress = Some (522 / 10), finish_min = Some (3961 / 10),
           speed_kps = Some 99181\<rparr> =
     SyncView ''Resync''
       [(''Prog:'', ''52.2%''), (''Rate:'', ''96.9M/s''), (''ETA:'', ''6h 36m'')]"
    by code_simp
  have hdr: "spec_header ''resync'' = ''Resync'' \<and> spec_header ''recovery'' = ''Recovery'' \<and>
   spec_header ''recover'' = ''Recovery'' \<and> spec_header ''check'' = ''Check'' \<and>
   spec_header ''repair'' = ''Repair'' \<and> spec_header ''reshape'' = ''Syncing''"
    by (simp add: spec_header_def)
  have act: "spec_sync_active rs \<longrightarrow>
      (\<exists>lines. render rs = SyncView (spec_header (get_str (sync_action rs))) lines)"
    by (simp add: render_sync render_resync_view)
  have lk: "\<exists>lines. render_resync rs sa = SyncView (spec_header sa) lines"
    by (simp add: render_resync_view)
  from lk hdr act scen show ?thesis
    by blast
qed

theorem sync_view_formatting_witness:
  "spec_sync_active \<lparr>array_state = Some ''clean'', sync_action = Some ''check'',
      progress = None, finish_min = None, speed_kps = None\<rparr> \<and>
   (\<exists>lines. render \<lparr>array_state = Some ''clean'', sync_action = Some ''check'',
      progress = None, finish_min = None, speed_kps = None\<rparr> = SyncView ''Check'' lines)"
proof -
  let ?rs = "\<lparr>array_state = Some ''clean'', sync_action = Some ''check'',
      progress = None, finish_min = None, speed_kps = None\<rparr>"
  have a: "spec_sync_active ?rs"
    by (simp add: spec_sync_active_def)
  from sync_view_formatting [of ?rs "''check''"] a
  have "\<exists>lines. render ?rs = SyncView (spec_header (get_str (sync_action ?rs))) lines"
    by blast
  then have "\<exists>lines. render ?rs = SyncView ''Check'' lines"
    by (simp add: get_str_def spec_header_def)
  with a show ?thesis
    by blast
qed

section \<open>Properties of the alarm engine's RAID block\<close>

lemma check_raid_degraded:
  "spec_degraded rs \<Longrightarrow> check_raid rs now st = alert_with ''raid_degraded'' ''double'' now st"
  by (cases "array_state rs")
     (simp_all add: check_raid_def Let_def spec_degraded_def get_str_def)

lemma check_raid_not_degraded:
  "\<not> spec_degraded rs \<Longrightarrow>
     check_raid rs now st =
       (if get_str (sync_action rs) \<in> {''resync'', ''recovery'', ''recover''}
        then alert_with ''raid_resync'' ''short'' now st
        else ([], clear ''raid_resync'' (clear ''raid_degraded'' st)))"
  by (cases "array_state rs")
     (simp_all add: check_raid_def Let_def spec_degraded_def get_str_def lower_def)

lemma alert_with_eq:
  "alert_with a pat now st =
     (if fst (should_alert a now st) then [pat] else [], snd (should_alert a now st))"
  by (simp add: alert_with_def split: prod.splits)

text \<open>
  C5, as the code has it. The RAID block is one if/elif/else cascade. When
  \<open>array_state\<close> contains "degraded", only the degraded alarm is evaluated ("double",
  subject to the \<open>raid_degraded\<close> cooldown) and the \<open>raid_resync\<close> stamp is neither
  set nor cleared. Otherwise, \<open>sync_action\<close> in resync, recovery, recover dispatches
  "short" subject to the \<open>raid_resync\<close> cooldown, and any other \<open>sync_action\<close> clears
  both \<open>raid_degraded\<close> and \<open>raid_resync\<close>.
\<close>

theorem check_raid_cascade:
  "(spec_degraded rs \<longrightarrow>
      check_raid rs now st =
        (if fst (should_alert ''raid_degraded'' now st) then [''double''] else [],
         snd (should_alert ''raid_degraded'' now st)) \<and>
      last_alert (snd (check_raid rs now st)) ''raid_resync'' = last_alert st ''raid_resync'') \<and>
   (\<not> spec_degraded rs \<and> get_str (sync_action rs) \<in> {''resync'', ''recovery'', ''recover''} \<longrightarrow>
      check_raid rs now st =
        (if fst (should_alert ''raid_resync'' now st) then [''short''] else [],
         snd (should_alert ''raid_resync'' now st))) \<and>
   (\<not> spec_degraded rs \<and> get_str (sync_action rs) \<notin> {''resync'', ''recovery'', ''recover''} \<longrightarrow>
      check_raid rs now st = ([], clear ''raid_resync'' (clear ''raid_degraded'' st)))"
proof (intro conjI impI)
  assume d: "spec_degraded rs"
  show eq: "check_raid rs now st =
        (if fst (should_alert ''raid_degraded'' now st) then [''double''] else [],
         snd (should_alert ''raid_degraded'' now st))"
    using d by (simp add: check_raid_degraded alert_with_eq)
  show "last_alert (snd (check_raid rs now st)) ''raid_resync'' = last_alert st ''raid_resync''"
    by (simp add: eq should_alert_def Let_def)
next
  assume "\<not> spec_degraded rs \<and> get_str (sync_action rs) \<in> {''resync'', ''recovery'', ''recover''}"
  then show "check_raid rs now st =
        (if fst (should_alert ''raid_resync'' now st) then [''short''] else [],
         snd (should_alert ''raid_resync'' now st))"
    by (simp add: check_raid_not_degraded alert_with_eq)
next
  assume "\<not> spec_degraded rs \<and> get_str (sync_action rs) \<notin> {''resync'', ''recovery'', ''recover''}"
  then show "check_raid rs now st = ([], clear ''raid_resync'' (clear ''raid_degraded'' st))"
    by (simp add: check_raid_not_degraded)
qed

theorem check_raid_cascade_witness:
  "\<not> spec_degraded \<lparr>array_state = Some ''clean'', sync_action = Some ''recovery'',
      progress = None, finish_min = None, speed_kps = None\<rparr> \<and>
   check_raid \<lparr>array_state = Some ''clean'', sync_action = Some ''recovery'',
      progress = None, finish_min = None, speed_kps = None\<rparr> 1000 alarm_state0 =
     ([''short''], \<lparr>cooldown = 300, last_alert = [''raid_resync'' \<mapsto> 1000]\<rparr>)"
proof -
  let ?rs = "\<lparr>array_state = Some ''clean'', sync_action = Some ''recovery'',
      progress = None, finish_min = None, speed_kps = None\<rparr>"
  have nd: "\<not> spec_degraded ?rs"
    by (simp add: spec_degraded_def lower_def lower_char_def sublist_Cons_right)
  have sa: "get_str (sync_action ?rs) \<in> {''resync'', ''recovery'', ''recover''}"
    by (simp add: get_str_def)
  from check_raid_cascade [of ?rs 1000 alarm_state0] nd sa
  have "check_raid ?rs 1000 alarm_state0 =
        (if fst (should_alert ''raid_resync'' 1000 alarm_state0) then [''short''] else [],
         snd (should_alert ''raid_resync'' 1000 alarm_state0))"
    by blast
  then have "check_raid ?rs 1000 alarm_state0 =
      ([''short''], \<lparr>cooldown = 300, last_alert = [''raid_resync'' \<mapsto> 1000]\<rparr>)"
    by (simp add: should_alert_def alarm_state0_def Let_def)
  with nd show ?thesis
    by blast
qed

text \<open>
  C5 as stated fails. A degraded array that is rebuilding (\<open>sync_action =
  "recovery"\<close>), with the \<open>raid_resync\<close> alarm out of cooldown: no "short" pattern
  is dispatched. A degraded array with \<open>sync_action = "idle"\<close>: the \<open>raid_resync\<close>
  stamp is not cleared.
\<close>

theorem resync_alarm_not_independent:
  "get_str (sync_action \<lparr>array_state = Some ''clean, degraded'', sync_action = Some ''recovery'',
      progress = None, finish_min = None, speed_kps = None\<rparr>)
     \<in> {''resync'', ''recovery'', ''recover''} \<and>
   fst (should_alert ''raid_resync'' 1000 alarm_state0) \<and>
   ''short'' \<notin> set (fst (check_raid \<lparr>array_state = Some ''clean, degraded'',
      sync_action = Some ''recovery'', progress = None, finish_min = None,
      speed_kps = None\<rparr> 1000 alarm_state0)) \<and>
   get_str (sync_action \<lparr>array_state = Some ''clean, degraded'', sync_action = Some ''idle'',
      progress = None, finish_min = None, speed_kps = None\<rparr>)
     \<notin> {''resync'', ''recovery'', ''recover''} \<and>
   last_alert (snd (check_raid \<lparr>array_state = Some ''clean, degraded'',
      sync_action = Some ''idle'', progress = None, finish_min = None, speed_kps = None\<rparr> 1000
      (snd (should_alert ''raid_resync'' 900 alarm_state0)))) ''raid_resync'' = Some 900"
proof -
  have d1: "spec_degraded \<lparr>array_state = Some ''clean, degraded'', sync_action = Some ''recovery'',
      progress = None, finish_min = None, speed_kps = None\<rparr>"
    by (simp add: spec_degraded_def lower_def lower_char_def sublist_Cons_right)
  have d2: "spec_degraded \<lparr>array_state = Some ''clean, degraded'', sync_action = Some ''idle'',
      progress = None, finish_min = None, speed_kps = None\<rparr>"
    by (simp add: spec_degraded_def lower_def lower_char_def sublist_Cons_right)
  show ?thesis
    by (simp add: check_raid_degraded [OF d1] check_raid_degraded [OF d2] alert_with_eq
        should_alert_def alarm_state0_def Let_def get_str_def)
qed

section \<open>Properties of the array status source\<close>

lemma read_sysfs_raises:
  "read_sysfs fs path = Inl e \<longleftrightarrow> fs path = Inl e \<and> e \<noteq> FileNotFoundError"
  by (auto simp: read_sysfs_def split: sum.splits)

text \<open>
  \<open>_get_status\<close> raises exactly when one of its two sysfs reads raises something other
  than \<open>FileNotFoundError\<close>; the read of \<open>/proc/mdstat\<close> and the parsing never raise.
\<close>

lemma get_status_raises:
  "get_status (Some md) fs = Inl e \<longleftrightarrow>
     md \<noteq> [] \<and>
     (read_sysfs fs (''/sys/block/'' @ md @ ''/md/array_state'') = Inl e \<or>
      (\<exists>st. read_sysfs fs (''/sys/block/'' @ md @ ''/md/array_state'') = Inr st) \<and>
      read_sysfs fs (''/sys/block/'' @ md @ ''/md/sync_action'') = Inl e)"
  by (auto simp: get_status_def Let_def split: sum.splits)

lemma parse_mdstat_keeps:
  "sync_action (parse_mdstat md mdstat r) = sync_action r \<and>
   array_state (parse_mdstat md mdstat r) = array_state r"
  by (simp add: parse_mdstat_def set_float_def split: option.splits sum.splits)

text \<open>
  The part of C7 that holds: the keys \<open>progress\<close>, \<open>finish_min\<close> and \<open>speed_kps\<close>
  are only in the dict when \<open>sync_action\<close> is present, non-empty and neither idle nor
  frozen.
\<close>

lemma get_status_progress_only_when_syncing:
  assumes "get_status md_name fs = Inr r"
    and "progress r \<noteq> None \<or> finish_min r \<noteq> None \<or> speed_kps r \<noteq> None"
  shows "\<exists>sa. sync_action r = Some sa \<and> sa \<noteq> [] \<and> sa \<notin> {''idle'', ''frozen''}"
proof -
  have "sync_running (sync_action r)"
    using assms
    by (auto simp: get_status_def Let_def no_status_def parse_mdstat_keeps
        split: option.splits sum.splits if_splits)
  then show ?thesis
    by (cases "sync_action r") (auto simp: sync_running_def)
qed

text \<open>
  C6 fails on the code. With \<open>md0\<close> as the array and a file system that refuses the
  read of \<open>/sys/block/md0/md/array_state\<close> with \<open>PermissionError\<close>, \<open>_get_status\<close>
  raises it, and \<open>get("status", 5.0)\<close> on the empty cache lets it through, storing
  nothing.
\<close>

theorem mdadm_get_raises_permission_error:
  "get_status (Some ''md0'') files_denied = Inl PermissionError \<and>
   get (mdadm_fetch (Some ''md0'')) ''status'' 5 1000 (init_source, files_denied) =
     (Inl (FetchRaised PermissionError), (init_source, files_denied))"
proof -
  have s: "get_status (Some ''md0'') files_denied = Inl PermissionError"
    by (simp add: get_status_def read_sysfs_def files_denied_def)
  show ?thesis
    by (simp add: s get_def init_source_def fetch_fresh_def mdadm_fetch_def)
qed

text \<open>
  C7 fails on the code. With \<open>md1\<close> as the array, \<open>sync_action = "resync"\<close>, and a
  status log where \<open>md0\<close> comes first with \<open>finish=5.0min speed=1000K/sec\<close> and
  \<open>md1\<close> follows with \<open>52.2%\<close>, \<open>finish=396.1min\<close>, \<open>speed=99181K/sec\<close>: the
  progress is read after the name \<open>md1\<close>, but \<open>finish_min\<close> and \<open>speed_kps\<close> are
  the first matches of the whole text, those of \<open>md0\<close>.
\<close>

theorem get_status_takes_other_arrays_finish_and_speed:
  "get_status (Some ''md1'') files_two_arrays =
     Inr \<lparr>array_state = Some ''clean'', sync_action = Some ''resync'',
          progress = Some (522 / 10), finish_min = Some 5, speed_kps = Some 1000\<rparr>"
  by code_simp

end
